theory Spec2Isabelle
  imports Complex_Main
begin

section \<open>Errors\<close>

text \<open>
  The exceptions the modelled code can end in. \<open>ZeroDivisionError\<close> is Python's own
  (integer floor division by zero). \<open>EmptySequences\<close> is the RuntimeError with which
  \<open>pad_sequence\<close> rejects an empty list of sequences, \<open>NotATensor\<close> the error with
  which it rejects a list entry that is not a tensor (the \<open>None\<close> placeholder).
\<close>

datatype py_error = ZeroDivisionError | EmptySequences | NotATensor

section \<open>PPORLBatchSampler\<close>

text \<open>
  The sampler keeps \<open>data_source\<close> only to take its length, so the model takes
  \<open>n = len(self.data_source)\<close> as a natural number. \<open>batch_size\<close> is whatever integer
  the caller passed: an \<open>int\<close>. Indices come from \<open>range\<close> over a length and are
  natural numbers.
\<close>

text \<open>
  One iteration of the main loop of \<open>__iter__\<close> (lines 52-56). The state is
  the current \<open>batch\<close> and the groups yielded so far.
\<close>

fun main_step :: "int \<Rightarrow> nat list \<times> nat list list \<Rightarrow> nat \<Rightarrow> nat list \<times> nat list list" where
  "main_step batch_size (batch, yielded) idx =
     (let batch' = batch @ [idx] in
      if int (length batch') = batch_size then ([], yielded @ [batch'])
      else (batch', yielded))"

definition main_loop :: "nat \<Rightarrow> int \<Rightarrow> nat list \<times> nat list list" where
  "main_loop n batch_size = foldl (main_step batch_size) ([], []) [0..<n]"

text \<open>The inner \<open>for i in range(k): batch.append(i)\<close> of the refill (lines 61-62).\<close>

definition append_range :: "nat list \<Rightarrow> nat \<Rightarrow> nat list" where
  "append_range batch k = foldl (\<lambda>b i. b @ [i]) batch [0..<k]"

text \<open>
  The \<open>while needed > 0\<close> loop (lines 60-63). With \<open>n = 0\<close> and \<open>needed > 0\<close> the
  Python loop would never end, so the model is a partial function: \<open>None\<close> is
  "does not return".
\<close>

partial_function (option) refill :: "nat \<Rightarrow> int \<Rightarrow> nat list \<Rightarrow> int \<Rightarrow> nat list option" where
  "refill n batch_size batch needed =
     (if needed > 0 then
        (let batch' = append_range batch (nat (min needed (int n))) in
         refill n batch_size batch' (batch_size - int (length batch')))
      else Some batch)"

text \<open>
  \<open>__iter__\<close> (lines 50-64): the list of all groups the generator yields, or
  \<open>None\<close> if it never finishes.
\<close>

definition sampler_iter :: "nat \<Rightarrow> int \<Rightarrow> nat list list option" where
  "sampler_iter n batch_size =
     (case main_loop n batch_size of
        (batch, yielded) \<Rightarrow>
          if batch \<noteq> [] then
            (case refill n batch_size batch (batch_size - int (length batch)) of
               None \<Rightarrow> None
             | Some batch' \<Rightarrow> Some (yielded @ [batch']))
          else Some yielded)"

text \<open>
  \<open>__len__\<close> (lines 66-67). Python's \<open>//\<close> on integers is floor division, as
  \<open>div\<close> on \<open>int\<close> is; it raises on a zero divisor.
\<close>

definition sampler_len :: "nat \<Rightarrow> int \<Rightarrow> py_error + int" where
  "sampler_len n batch_size =
     (if batch_size = 0 then Inl ZeroDivisionError
      else Inr ((int n + batch_size - 1) div batch_size))"


section \<open>Trajectory records\<close>

text \<open>
  \<open>PPORLElement\<close> and its subclass \<open>PPORLVisionElement\<close> (lines 11-41). Every field
  is a one-dimensional tensor, modelled as the list of its entries: token ids are
  integers, and the entries of the float tensors are of a type \<open>'f\<close> of which only the
  value \<open>0\<close> (the literal \<open>0.0\<close> of the padding) is used. The selector \<open>image_ids\<close>
  is only meaningful on a \<open>PPORLVisionElement\<close>; the code guards each read of it with
  \<open>hasattr\<close>. The field \<open>values\<close> is written \<open>values'\<close>, as \<open>values\<close> is a command
  of the proof language.
\<close>

datatype 'f element =
    PPORLElement
      (input_ids: "int list") (actions: "int list")
      (logprobs: "'f list") (values': "'f list") (rewards: "'f list")
  | PPORLVisionElement
      (input_ids: "int list") (actions: "int list")
      (logprobs: "'f list") (values': "'f list") (rewards: "'f list")
      (image_ids: "int list")

text \<open>\<open>hasattr(element, 'image_ids')\<close>.\<close>

fun hasattr_image_ids :: "'f element \<Rightarrow> bool" where
  "hasattr_image_ids (PPORLElement _ _ _ _ _) = False"
| "hasattr_image_ids (PPORLVisionElement _ _ _ _ _ _) = True"

section \<open>pad_sequence\<close>

text \<open>
  What the code appends to the lists it hands to \<open>pad_sequence\<close>: a tensor, or the
  placeholder \<open>None\<close> (line 106).
\<close>

datatype 'a py_value = Tensor (data: "'a list") | PyNone

text \<open>
  Modelled from the spec: \<open>torch.nn.utils.rnn.pad_sequence\<close> is imported (line 9) from
  the tensor library and is not part of the source file. With \<open>batch_first=True\<close> it
  is steps 2 to 4 of section 4.2: the maximum length among the sequences, every
  sequence right-padded to it with the fill value, and the padded sequences stacked in
  order as the rows of the result. The library rejects an empty list of sequences
  ("received an empty list of sequences") and a list holding something that is not a
  tensor; the model returns these as \<open>EmptySequences\<close> and \<open>NotATensor\<close>.
\<close>

definition pad_sequence :: "'a py_value list \<Rightarrow> 'a \<Rightarrow> py_error + 'a list list" where
  "pad_sequence sequences padding_value =
     (if sequences = [] then Inl EmptySequences
      else if PyNone \<in> set sequences then Inl NotATensor
      else
        (let max_len = Max (set (map (\<lambda>s. length (data s)) sequences)) in
         Inr (map (\<lambda>s. data s @ replicate (max_len - length (data s)) padding_value)
                sequences)))"

section \<open>ppo_rl_collate_fn\<close>

text \<open>The six local lists of lines 83-88.\<close>

record 'f containers =
  input_ids_list :: "int py_value list"
  actions_list :: "int py_value list"
  logprobs_list :: "'f py_value list"
  values_list :: "'f py_value list"
  rewards_list :: "'f py_value list"
  image_ids_list :: "int py_value list"

definition empty_containers :: "'f containers" where
  "empty_containers =
     \<lparr>input_ids_list = [], actions_list = [], logprobs_list = [], values_list = [],
      rewards_list = [], image_ids_list = []\<rparr>"

text \<open>The body of \<open>for element in batch\<close> (lines 93-106).\<close>

definition collect_step :: "bool \<Rightarrow> 'f containers \<Rightarrow> 'f element \<Rightarrow> 'f containers" where
  "collect_step has_image_ids c element =
     (let c1 = c\<lparr>input_ids_list := input_ids_list c @ [Tensor (input_ids element)]\<rparr>;
          c2 = c1\<lparr>actions_list := actions_list c1 @ [Tensor (actions element)]\<rparr>;
          c3 = c2\<lparr>logprobs_list := logprobs_list c2 @ [Tensor (logprobs element)]\<rparr>;
          c4 = c3\<lparr>values_list := values_list c3 @ [Tensor (values' element)]\<rparr>;
          c5 = c4\<lparr>rewards_list := rewards_list c4 @ [Tensor (rewards element)]\<rparr>
      in if has_image_ids then
           (if hasattr_image_ids element
            then c5\<lparr>image_ids_list := image_ids_list c5 @ [Tensor (image_ids element)]\<rparr>
            else c5\<lparr>image_ids_list := image_ids_list c5 @ [PyNone]\<rparr>)
         else c5)"

text \<open>
  The returned dictionary maps a field name to a two-dimensional tensor, given as the
  list of its rows: of integers for the token fields, of \<open>'f\<close> for the float fields.
\<close>

datatype 'f batched = LongBatch "int list list" | FloatBatch "'f list list"

type_synonym 'f batched_data = "string \<rightharpoonup> 'f batched"

text \<open>
  The dictionary built from the collected lists (lines 109-121). The entries of the
  dictionary display are evaluated in order, and the first \<open>pad_sequence\<close> that raises
  ends the call.
\<close>

definition build_batched_data ::
  "bool \<Rightarrow> 'f::zero containers \<Rightarrow> int \<Rightarrow> py_error + 'f batched_data" where
  "build_batched_data has_image_ids c pad_token_id =
     (case pad_sequence (input_ids_list c) pad_token_id of Inl e \<Rightarrow> Inl e | Inr t_input_ids \<Rightarrow>
      case pad_sequence (actions_list c) pad_token_id of Inl e \<Rightarrow> Inl e | Inr t_actions \<Rightarrow>
      case pad_sequence (logprobs_list c) 0 of Inl e \<Rightarrow> Inl e | Inr t_logprobs \<Rightarrow>
      case pad_sequence (values_list c) 0 of Inl e \<Rightarrow> Inl e | Inr t_values \<Rightarrow>
      case pad_sequence (rewards_list c) 0 of Inl e \<Rightarrow> Inl e | Inr t_rewards \<Rightarrow>
        (let batched_data =
               [''input_ids'' \<mapsto> LongBatch t_input_ids,
                ''actions'' \<mapsto> LongBatch t_actions,
                ''logprobs'' \<mapsto> FloatBatch t_logprobs,
                ''values'' \<mapsto> FloatBatch t_values,
                ''rewards'' \<mapsto> FloatBatch t_rewards]
         in if has_image_ids then
              (case pad_sequence (image_ids_list c) 0 of
                 Inl e \<Rightarrow> Inl e
               | Inr t_image_ids \<Rightarrow>
                   Inr (batched_data(''image_ids'' \<mapsto> LongBatch t_image_ids)))
            else Inr batched_data))"

text \<open>\<open>ppo_rl_collate_fn\<close> (lines 81-121).\<close>

definition ppo_rl_collate_fn :: "'f::zero element list \<Rightarrow> int \<Rightarrow> py_error + 'f batched_data" where
  "ppo_rl_collate_fn batch pad_token_id =
     (let has_image_ids = list_ex hasattr_image_ids batch;
          c = foldl (collect_step has_image_ids) empty_containers batch
      in build_batched_data has_image_ids c pad_token_id)"

section \<open>Notions used to state the properties\<close>

text \<open>The groups of \<open>b\<close> consecutive indices \<open>[0..b-1], [b..2b-1], ...\<close>, \<open>q\<close> of them.\<close>

definition full_groups :: "nat \<Rightarrow> nat \<Rightarrow> nat list list" where
  "full_groups b q = map (\<lambda>k. [k * b..<k * b + b]) [0..<q]"

text \<open>A two-dimensional tensor, given by its rows, has shape \<open>(rows, cols)\<close>.\<close>

definition has_shape :: "'a list list \<Rightarrow> nat \<Rightarrow> nat \<Rightarrow> bool" where
  "has_shape t rows cols \<longleftrightarrow> length t = rows \<and> list_all (\<lambda>row. length row = cols) t"

text \<open>The longest sequence a field has among the records of a batch.\<close>

definition max_length :: "('f element \<Rightarrow> 'a list) \<Rightarrow> 'f element list \<Rightarrow> nat" where
  "max_length field batch = Max (set (map (\<lambda>e. length (field e)) batch))"

text \<open>
  A row is a sequence padded on the right: it starts with the sequence, and every
  entry after it is the fill value.
\<close>

definition padded_from :: "'a list \<Rightarrow> 'a \<Rightarrow> 'a list \<Rightarrow> bool" where
  "padded_from seq fill row \<longleftrightarrow>
     take (length seq) row = seq \<and> list_all (\<lambda>x. x = fill) (drop (length seq) row)"

text \<open>A batch in which some records carry \<open>image_ids\<close> and others do not.\<close>

definition mixed :: "'f element list \<Rightarrow> bool" where
  "mixed batch \<longleftrightarrow> list_ex hasattr_image_ids batch \<and> \<not> list_all hasattr_image_ids batch"


text \<open>The rows \<open>pad_sequence\<close> builds from one field of the records of a batch.\<close>

definition pad_rows :: "('f element \<Rightarrow> 'a list) \<Rightarrow> 'f element list \<Rightarrow> 'a \<Rightarrow> 'a list list" where
  "pad_rows field batch fill =
     map (\<lambda>e. field e @ replicate (max_length field batch - length (field e)) fill) batch"

text \<open>What the loop appends to \<open>image_ids\<close> for a record when the batch has image ids.\<close>

definition image_ids_or_none :: "'f element \<Rightarrow> int py_value" where
  "image_ids_or_none e = (if hasattr_image_ids e then Tensor (image_ids e) else PyNone)"

text \<open>The five entries every returned dictionary has.\<close>

definition base_data :: "'f::zero element list \<Rightarrow> int \<Rightarrow> 'f batched_data" where
  "base_data batch pad_token_id =
     [''input_ids'' \<mapsto> LongBatch (pad_rows input_ids batch pad_token_id),
      ''actions'' \<mapsto> LongBatch (pad_rows actions batch pad_token_id),
      ''logprobs'' \<mapsto> FloatBatch (pad_rows logprobs batch 0),
      ''values'' \<mapsto> FloatBatch (pad_rows values' batch 0),
      ''rewards'' \<mapsto> FloatBatch (pad_rows rewards batch 0)]"

text \<open>
  The invariant of section 3 on one record: \<open>actions\<close>, \<open>logprobs\<close>, \<open>values\<close> and
  \<open>rewards\<close> have the same length.
\<close>

definition same_action_lengths :: "'f element \<Rightarrow> bool" where
  "same_action_lengths e \<longleftrightarrow>
     length (actions e) = length (logprobs e) \<and> length (logprobs e) = length (values' e)
     \<and> length (values' e) = length (rewards e)"

section \<open>Example batches\<close>

text \<open>Two records without image ids, and what collating them with pad token \<open>-1\<close> gives.\<close>

definition plain_batch :: "real element list" where
  "plain_batch =
     [PPORLElement [1, 2, 3] [4] [5] [6] [7],
      PPORLElement [8] [9, 10] [11, 12] [13, 14] [15, 16]]"

definition plain_out :: "real batched_data" where
  "plain_out =
     [''input_ids'' \<mapsto> LongBatch [[1, 2, 3], [8, - 1, - 1]],
      ''actions'' \<mapsto> LongBatch [[4, - 1], [9, 10]],
      ''logprobs'' \<mapsto> FloatBatch [[5, 0], [11, 12]],
      ''values'' \<mapsto> FloatBatch [[6, 0], [13, 14]],
      ''rewards'' \<mapsto> FloatBatch [[7, 0], [15, 16]]]"

text \<open>Two vision records, and what collating them with pad token \<open>-1\<close> gives.\<close>

definition vision_batch :: "real element list" where
  "vision_batch =
     [PPORLVisionElement [1, 2, 3] [4] [5] [6] [7] [20],
      PPORLVisionElement [8] [9, 10] [11, 12] [13, 14] [15, 16] [21, 22, 23]]"

definition vision_out :: "real batched_data" where
  "vision_out =
     [''input_ids'' \<mapsto> LongBatch [[1, 2, 3], [8, - 1, - 1]],
      ''actions'' \<mapsto> LongBatch [[4, - 1], [9, 10]],
      ''logprobs'' \<mapsto> FloatBatch [[5, 0], [11, 12]],
      ''values'' \<mapsto> FloatBatch [[6, 0], [13, 14]],
      ''rewards'' \<mapsto> FloatBatch [[7, 0], [15, 16]],
      ''image_ids'' \<mapsto> LongBatch [[20, 0, 0], [21, 22, 23]]]"

text \<open>
  A batch whose first record has \<open>actions\<close>, \<open>logprobs\<close> and \<open>values\<close> of lengths 1,
  2 and 3, and what collating it with pad token \<open>-1\<close> gives.
\<close>

definition mismatched_batch :: "real element list" where
  "mismatched_batch =
     [PPORLElement [1, 2, 3] [4] [5, 5] [6, 6, 6] [7],
      PPORLElement [8] [9, 10] [11, 12] [13, 14] [15, 16]]"

definition mismatched_out :: "real batched_data" where
  "mismatched_out =
     [''input_ids'' \<mapsto> LongBatch [[1, 2, 3], [8, - 1, - 1]],
      ''actions'' \<mapsto> LongBatch [[4, - 1], [9, 10]],
      ''logprobs'' \<mapsto> FloatBatch [[5, 5], [11, 12]],
      ''values'' \<mapsto> FloatBatch [[6, 6, 6], [13, 14, 0]],
      ''rewards'' \<mapsto> FloatBatch [[7, 0], [15, 16]]]"

text \<open>
  Batches in which some records have \<open>image_ids\<close> and others do not: a plain record
  followed by a vision record; the same with two actions and one log-probability in
  the first record; a vision record followed by a plain record; and a plain record
  between two vision records.
\<close>

definition mixed_batch :: "real element list" where
  "mixed_batch =
     [PPORLElement [1, 2] [3] [0] [0] [0],
      PPORLVisionElement [4] [5] [0] [0] [0] [6, 7]]"

definition mixed_mismatched_batch :: "real element list" where
  "mixed_mismatched_batch =
     [PPORLElement [1, 2] [3, 3] [0] [0] [0],
      PPORLVisionElement [4] [5] [0] [0] [0] [6, 7]]"

definition vision_first_mixed_batch :: "real element list" where
  "vision_first_mixed_batch =
     [PPORLVisionElement [1, 2, 3] [4] [5] [6] [7] [20],
      PPORLElement [8] [9, 10] [11, 12] [13, 14] [15, 16]]"

definition three_record_mixed_batch :: "real element list" where
  "three_record_mixed_batch =
     [PPORLVisionElement [1, 2, 3] [4] [5] [6] [7] [20],
      PPORLElement [8] [9, 10] [11, 12] [13, 14] [15, 16],
      PPORLVisionElement [17] [18] [19] [20] [21] [22, 23]]"

section \<open>Properties of the batch sampler\<close>

lemma append_range_eq: "append_range batch k = batch @ [0..<k]"
  by (induction k) (simp_all add: append_range_def)

lemma main_loop_0: "main_loop 0 batch_size = ([], [])"
  by (simp add: main_loop_def)

lemma main_loop_Suc:
  "main_loop (Suc n) batch_size = main_step batch_size (main_loop n batch_size) n"
  by (simp add: main_loop_def)

lemma main_loop_nonpos:
  "batch_size \<le> 0 \<Longrightarrow> main_loop n batch_size = ([0..<n], [])"
  by (induction n) (simp_all add: main_loop_0 main_loop_Suc)

lemma main_loop_pos:
  assumes "0 < b"
  shows "main_loop n (int b) = ([n - n mod b..<n], full_groups b (n div b))"
proof (induction n)
  case 0
  show ?case by (simp add: main_loop_0 full_groups_def)
next
  case (Suc n)
  have le: "n mod b \<le> n" by simp
  have eq: "n - n mod b = n div b * b"
    by (simp add: minus_mod_eq_div_mult)
  show ?case
  proof (cases "Suc (n mod b) = b")
    case True
    then have m: "Suc n mod b = 0" by (simp add: mod_Suc)
    have d: "Suc n div b = Suc (n div b)" using True by (simp add: div_Suc mod_Suc)
    have "n div b * b + b = Suc n" using True eq le by linarith
    then have g: "[n - n mod b..<n] @ [n] = [n div b * b..<n div b * b + b]"
      using eq le by simp
    have len: "length ([n - n mod b..<n] @ [n]) = b" using True le by simp
    have "main_step (int b) ([n - n mod b..<n], full_groups b (n div b)) n
          = ([], full_groups b (n div b) @ [[n div b * b..<n div b * b + b]])"
      using len g by (simp add: Let_def del: upt_Suc length_upt length_append)
    then show ?thesis
      unfolding main_loop_Suc Suc m d by (simp add: full_groups_def)
  next
    case False
    then have m: "Suc n mod b = Suc (n mod b)" by (simp add: mod_Suc)
    have d: "Suc n div b = n div b" using False by (simp add: div_Suc mod_Suc)
    have g: "[n - n mod b..<n] @ [n] = [Suc n - Suc (n mod b)..<Suc n]"
      using le by simp
    have len: "length ([n - n mod b..<n] @ [n]) \<noteq> b" using False le by simp
    have "main_step (int b) ([n - n mod b..<n], full_groups b (n div b)) n
          = ([Suc n - Suc (n mod b)..<Suc n], full_groups b (n div b))"
      using len g by (simp add: Let_def del: upt_Suc length_upt length_append diff_Suc_Suc)
    then show ?thesis
      unfolding main_loop_Suc Suc m d by simp
  qed
qed

lemma wrap_split:
  assumes "0 < n"
  shows "[0..<min N n] @ map (\<lambda>k. k mod n) [0..<N - min N n] = map (\<lambda>k. k mod n) [0..<N]"
proof (cases "N \<le> n")
  case True
  then have "map (\<lambda>k. k mod n) [0..<N] = map (\<lambda>k. k) [0..<N]"
    by (intro map_cong) auto
  with True show ?thesis by (simp add: min_def)
next
  case False
  then have nN: "n \<le> N" by simp
  have "[0..<N] = [0..<n] @ [n..<N]"
    using nN upt_add_eq_append [of 0 n "N - n"] by simp
  moreover have "map (\<lambda>k. k mod n) [0..<n] = map (\<lambda>k. k) [0..<n]"
    by (intro map_cong) auto
  moreover have "map (\<lambda>k. k mod n) [n..<N] = map (\<lambda>k. k mod n) [0..<N - n]"
  proof -
    have "[n..<N] = map (\<lambda>k. k + n) [0..<N - n]"
      using nN by (simp add: map_add_upt)
    then show ?thesis by (simp add: comp_def)
  qed
  ultimately show ?thesis using False by (simp add: min_def)
qed

lemma refill_wrap:
  assumes "0 < n"
  shows "needed = batch_size - int (length batch) \<Longrightarrow>
         refill n batch_size batch needed
           = Some (batch @ map (\<lambda>k. k mod n) [0..<nat needed])"
proof (induction "nat needed" arbitrary: needed batch rule: less_induct)
  case less
  show ?case
  proof (cases "needed > 0")
    case False
    then show ?thesis by (subst refill.simps) simp
  next
    case True
    define m where "m = nat (min needed (int n))"
    have m: "m = min (nat needed) n" using True unfolding m_def by arith
    have mpos: "0 < m" using True assms m by simp
    define batch' where "batch' = batch @ [0..<m]"
    define needed' where "needed' = batch_size - int (length batch')"
    have n': "needed' = needed - int m" using less.prems by (simp add: needed'_def batch'_def)
    have natn': "nat needed' = nat needed - m" using n' True by simp
    have "nat needed' < nat needed" using mpos True m natn' by linarith
    then have IH: "refill n batch_size batch' needed'
           = Some (batch' @ map (\<lambda>k. k mod n) [0..<nat needed'])"
      using less.hyps needed'_def by blast
    have "refill n batch_size batch needed = refill n batch_size batch' needed'"
      using True by (subst refill.simps) (simp add: append_range_eq m_def batch'_def needed'_def Let_def)
    also have "\<dots> = Some (batch @ ([0..<m] @ map (\<lambda>k. k mod n) [0..<nat needed - m]))"
      using IH natn' by (simp add: batch'_def)
    also have "[0..<m] @ map (\<lambda>k. k mod n) [0..<nat needed - m] = map (\<lambda>k. k mod n) [0..<nat needed]"
      unfolding m using wrap_split [OF assms] by simp
    finally show ?thesis .
  qed
qed

lemma main_loop_batch_nonempty:
  "main_loop n batch_size = (batch, yielded) \<Longrightarrow> batch \<noteq> [] \<Longrightarrow> 0 < n"
  by (cases n) (simp_all add: main_loop_0)

lemma sampler_iter_partial:
  assumes "main_loop n batch_size = (batch, yielded)" and "batch \<noteq> []"
  shows "sampler_iter n batch_size
         = Some (yielded @ [batch @ map (\<lambda>k. k mod n) [0..<nat (batch_size - int (length batch))]])"
proof -
  have "0 < n" using assms by (rule main_loop_batch_nonempty)
  then show ?thesis
    using assms by (simp add: sampler_iter_def refill_wrap)
qed

lemma sampler_iter_pos:
  assumes "0 < b"
  shows "sampler_iter n (int b) =
     Some (if n mod b = 0 then full_groups b (n div b)
           else full_groups b (n div b)
                @ [[n - n mod b..<n] @ map (\<lambda>k. k mod n) [0..<b - n mod b]])"
proof (cases "n mod b = 0")
  case True
  then show ?thesis
    using main_loop_pos [OF assms, of n] by (simp add: sampler_iter_def)
next
  case False
  have ne: "[n - n mod b..<n] \<noteq> []" using False
    by (metis mod_less_eq_dividend diff_is_0_eq' diff_diff_cancel length_upt length_0_conv)
  have lb: "n mod b \<le> b" using assms by (simp add: less_imp_le)
  have "nat (int b - int (length [n - n mod b..<n])) = b - n mod b"
    by simp
  then show ?thesis
    using sampler_iter_partial [OF main_loop_pos [OF assms, of n] ne] False by simp
qed

lemma concat_full_groups: "concat (full_groups b q) = [0..<q * b]"
proof (induction q)
  case 0
  show ?case by (simp add: full_groups_def)
next
  case (Suc q)
  have "[0..<q * b] @ [q * b..<q * b + b] = [0..<q * b + b]"
    using upt_add_eq_append [of 0 "q * b" b] by simp
  with Suc show ?case by (simp add: full_groups_def add.commute)
qed

lemma full_groups_elem:
  assumes "g \<in> set (full_groups b q)"
  shows "length g = b \<and> (\<forall>i \<in> set g. i < q * b)"
proof -
  from assms obtain k where k: "k < q" and g: "g = [k * b..<k * b + b]"
    by (auto simp: full_groups_def)
  have "k * b + b \<le> q * b"
  proof -
    have "Suc k * b \<le> q * b" using k by (intro mult_le_mono1) simp
    then show ?thesis by (simp add: add.commute)
  qed
  then show ?thesis using g by auto
qed

lemma ceiling_groups:
  assumes "0 < b"
  shows "\<lceil>real n / real_of_int (int b)\<rceil> = int (if n mod b = 0 then n div b else Suc (n div b))"
proof -
  have "\<lceil>real n / real_of_int (int b)\<rceil> = \<lceil>of_int (int n) / of_int (int b) :: real\<rceil>" by simp
  also have "\<dots> = - (- int n div int b)" by (rule ceiling_divide_eq_div)
  also have "\<dots> = int (if n mod b = 0 then n div b else Suc (n div b))"
  proof (cases "n mod b = 0")
    case True
    then have "int b dvd int n" by (simp add: mod_eq_0_iff_dvd)
    then have "- int n div int b = - (int n div int b)" by (simp add: dvd_neg_div)
    then show ?thesis using True by (simp add: zdiv_int)
  next
    case False
    then have "\<not> int b dvd int n" by (simp add: mod_eq_0_iff_dvd)
    then have "- int n div int b = - (int n div int b) - 1"
      using assms by (simp add: div_minus_right zdiv_zminus1_eq_if mod_eq_0_iff_dvd)
    then show ?thesis using False by (simp add: zdiv_int)
  qed
  finally show ?thesis .
qed

lemma int_div_qr:
  fixes q r b :: int
  assumes "0 \<le> r" and "r < b"
  shows "(q * b + r) div b = q"
proof -
  have "b \<noteq> 0" using assms by simp
  then have "(q * b + r) div b = q + r div b" by simp
  moreover have "r div b = 0" using assms by (simp add: div_pos_pos_trivial)
  ultimately show ?thesis by simp
qed

lemma len_groups:
  assumes "0 < b"
  shows "(int n + int b - 1) div int b = int (if n mod b = 0 then n div b else Suc (n div b))"
proof -
  define r where "r = n mod b"
  define q where "q = n div b"
  have n: "int n = int q * int b + int r"
    unfolding r_def q_def by (metis div_mult_mod_eq of_nat_add of_nat_mult)
  have lt: "r < b" using assms by (simp add: r_def)
  show ?thesis
  proof (cases "r = 0")
    case True
    have e: "int n + int b - 1 = int q * int b + (int b - 1)"
      using n True by simp
    have d: "(int q * int b + (int b - 1)) div int b = int q"
      using assms by (intro int_div_qr) simp_all
    have "(int n + int b - 1) div int b = int q"
      by (simp only: e d)
    moreover have "n mod b = 0" using True by (simp add: r_def)
    ultimately show ?thesis unfolding q_def by simp
  next
    case False
    have e: "int n + int b - 1 = (int q + 1) * int b + (int r - 1)"
      using n by (simp add: algebra_simps)
    have d: "((int q + 1) * int b + (int r - 1)) div int b = int q + 1"
      using False lt by (intro int_div_qr) simp_all
    have "(int n + int b - 1) div int b = int q + 1"
      by (simp only: e d)
    moreover have "n mod b \<noteq> 0" using False by (simp add: r_def)
    ultimately show ?thesis by (simp add: q_def)
  qed
qed

lemma wrap_index_less: "0 < n \<Longrightarrow> i \<in> set (map (\<lambda>k. k mod n) [0..<m]) \<Longrightarrow> i < n"
  by auto

text \<open>
  Claim C1. For a collection of \<open>n \<ge> 1\<close> records and \<open>batch_size \<ge> 1\<close> the iterator
  finishes and yields \<open>ceil(n / batch_size)\<close> groups; each group has exactly
  \<open>batch_size\<close> indices, all below \<open>n\<close>; the first \<open>n\<close> indices of the groups put
  end to end are \<open>0, ..., n-1\<close> in order; and \<open>__len__\<close> returns the number of groups.
\<close>

theorem sampler_groups:
  assumes "1 \<le> n" and "1 \<le> batch_size"
  shows "\<exists>groups. sampler_iter n batch_size = Some groups
           \<and> int (length groups) = \<lceil>real n / real_of_int batch_size\<rceil>
           \<and> (\<forall>g \<in> set groups. int (length g) = batch_size \<and> (\<forall>i \<in> set g. i < n))
           \<and> take n (concat groups) = [0..<n]
           \<and> sampler_len n batch_size = Inr (int (length groups))"
proof -
  define b where "b = nat batch_size"
  have b: "0 < b" and bs: "batch_size = int b" using assms by (simp_all add: b_def)
  have npos: "0 < n" using assms by simp
  define q where "q = n div b"
  define r where "r = n mod b"
  have qb: "q * b = n - r" unfolding q_def r_def by (simp add: minus_mod_eq_div_mult)
  have rn: "r \<le> n" unfolding r_def by simp
  have rb: "r < b" unfolding r_def using b by simp
  define last_group where "last_group = [n - r..<n] @ map (\<lambda>k. k mod n) [0..<b - r]"
  define groups where "groups = (if r = 0 then full_groups b q else full_groups b q @ [last_group])"
  have it: "sampler_iter n batch_size = Some groups"
    unfolding bs groups_def last_group_def q_def r_def by (rule sampler_iter_pos [OF b])
  have len: "length groups = (if r = 0 then q else Suc q)"
    by (simp add: groups_def full_groups_def)
  have c1: "int (length groups) = \<lceil>real n / real_of_int batch_size\<rceil>"
    unfolding bs len q_def r_def by (rule ceiling_groups [OF b, symmetric])
  have c4: "sampler_len n batch_size = Inr (int (length groups))"
    using b len_groups [OF b, of n] unfolding bs len q_def r_def sampler_len_def by simp
  have full: "length g = b \<and> (\<forall>i \<in> set g. i < n)" if "g \<in> set (full_groups b q)" for g
    using full_groups_elem [OF that] qb by auto
  have lastg: "length last_group = b \<and> (\<forall>i \<in> set last_group. i < n)"
  proof
    show "length last_group = b" using rn rb by (simp add: last_group_def)
    show "\<forall>i \<in> set last_group. i < n" using npos by (auto simp: last_group_def)
  qed
  have c2: "\<forall>g \<in> set groups. int (length g) = batch_size \<and> (\<forall>i \<in> set g. i < n)"
    unfolding bs groups_def using full lastg by auto
  have c3: "take n (concat groups) = [0..<n]"
  proof (cases "r = 0")
    case True
    then show ?thesis using qb by (simp add: groups_def concat_full_groups)
  next
    case False
    have "[0..<n - r] @ [n - r..<n] = [0..<n]"
      using rn upt_add_eq_append [of 0 "n - r" r] by simp
    then have "concat groups = [0..<n] @ map (\<lambda>k. k mod n) [0..<b - r]"
      using False qb by (simp add: groups_def concat_full_groups last_group_def del: append_assoc add: append_assoc [symmetric])
    then show ?thesis by simp
  qed
  show ?thesis using it c1 c2 c3 c4 by blast
qed

text \<open>The instance \<open>n = 7\<close>, \<open>batch_size = 3\<close> of C1.\<close>

theorem sampler_groups_witness:
  "1 \<le> (7::nat) \<and> 1 \<le> (3::int) \<and>
   (\<exists>groups. sampler_iter 7 3 = Some groups
           \<and> int (length groups) = \<lceil>real 7 / real_of_int 3\<rceil>
           \<and> (\<forall>g \<in> set groups. int (length g) = 3 \<and> (\<forall>i \<in> set g. i < 7))
           \<and> take 7 (concat groups) = [0..<7]
           \<and> sampler_len 7 3 = Inr (int (length groups)))"
  using sampler_groups [of 7 3] by simp

text \<open>
  Claim C2. When the main pass ends with a partial group \<open>batch\<close> of size \<open>s\<close>,
  \<open>1 \<le> s < batch_size\<close>, the final group is \<open>batch\<close> followed by the indices
  \<open>0, 1, ..., n-1, 0, 1, ...\<close> (the \<open>k\<close>-th of them is \<open>k mod n\<close>) up to length
  \<open>batch_size\<close>, and it is yielded last. In particular \<open>n = 7, batch_size = 3\<close> gives
  \<open>[0,1,2], [3,4,5], [6,0,1]\<close> and \<open>n = 2, batch_size = 5\<close> gives \<open>[0,1,0,1,0]\<close>.
\<close>

theorem refill_wraps_from_start:
  "(main_loop n batch_size = (batch, yielded) \<and> 1 \<le> length batch \<and> int (length batch) < batch_size
      \<longrightarrow> sampler_iter n batch_size
            = Some (yielded @ [batch @ map (\<lambda>k. k mod n) [0..<nat batch_size - length batch]])
          \<and> length (batch @ map (\<lambda>k. k mod n) [0..<nat batch_size - length batch]) = nat batch_size)
   \<and> sampler_iter 7 3 = Some [[0, 1, 2], [3, 4, 5], [6, 0, 1]]
   \<and> sampler_iter 2 5 = Some [[0, 1, 0, 1, 0]]"
proof (intro conjI impI)
  assume a: "main_loop n batch_size = (batch, yielded) \<and> 1 \<le> length batch \<and> int (length batch) < batch_size"
  then have ne: "batch \<noteq> []" by auto
  have "nat (batch_size - int (length batch)) = nat batch_size - length batch"
    using a by simp
  then show "sampler_iter n batch_size
            = Some (yielded @ [batch @ map (\<lambda>k. k mod n) [0..<nat batch_size - length batch]])"
    using sampler_iter_partial [OF _ ne] a by simp
  have "length batch \<le> nat batch_size" using a by linarith
  then show "length (batch @ map (\<lambda>k. k mod n) [0..<nat batch_size - length batch]) = nat batch_size"
    by simp
next
  show "sampler_iter 7 3 = Some [[0, 1, 2], [3, 4, 5], [6, 0, 1]]"
    using sampler_iter_pos [of 3 7] by (simp add: full_groups_def upt_conv_Cons)
  show "sampler_iter 2 5 = Some [[0, 1, 0, 1, 0]]"
    using sampler_iter_pos [of 5 2] by (simp add: full_groups_def upt_conv_Cons)
qed

text \<open>The general part of C2 at \<open>n = 7\<close>, \<open>batch_size = 3\<close>, where the main pass leaves \<open>[6]\<close>.\<close>

theorem refill_wraps_from_start_witness:
  "main_loop 7 3 = ([6], [[0, 1, 2], [3, 4, 5]]) \<and> 1 \<le> length [6::nat] \<and> int (length [6::nat]) < 3
   \<and> sampler_iter 7 3 = Some ([[0, 1, 2], [3, 4, 5]] @ [[6] @ map (\<lambda>k. k mod 7) [0..<nat 3 - length [6::nat]]])"
proof -
  have m: "main_loop 7 3 = ([6], [[0, 1, 2], [3, 4, 5]])"
    by (simp add: main_loop_def upt_conv_Cons)
  show ?thesis
    using m refill_wraps_from_start [of 7 3 "[6]" "[[0, 1, 2], [3, 4, 5]]"] by simp
qed

text \<open>
  Claim C3. For an empty collection and \<open>batch_size \<ge> 1\<close> the iterator yields no
  group and \<open>__len__\<close> returns 0.
\<close>

theorem sampler_empty_collection:
  assumes "1 \<le> batch_size"
  shows "sampler_iter 0 batch_size = Some [] \<and> sampler_len 0 batch_size = Inr 0"
  using assms by (simp add: sampler_iter_def main_loop_def sampler_len_def div_pos_pos_trivial)

text \<open>The instance \<open>batch_size = 5\<close> of C3.\<close>

theorem sampler_empty_collection_witness:
  "1 \<le> (5::int) \<and> sampler_iter 0 5 = Some [] \<and> sampler_len 0 5 = Inr 0"
  using sampler_empty_collection [of 5] by simp

text \<open>
  Claim C10. With \<open>batch_size = 0\<close> and \<open>n \<ge> 1\<close> the iterator yields the single
  group \<open>[0, ..., n-1]\<close> (the size test never holds after an append, and the refill
  loop is not entered), while \<open>__len__\<close> raises \<open>ZeroDivisionError\<close>.
\<close>

theorem sampler_batch_size_zero:
  assumes "1 \<le> n"
  shows "sampler_iter n 0 = Some [[0..<n]] \<and> sampler_len n 0 = Inl ZeroDivisionError"
proof -
  have ne: "[0..<n] \<noteq> []" using assms by simp
  have "refill n 0 [0..<n] (0 - int (length [0..<n])) = Some [0..<n]"
    by (subst refill.simps) simp
  then show ?thesis
    using ne by (simp add: sampler_iter_def main_loop_nonpos sampler_len_def)
qed

text \<open>The instance \<open>n = 4\<close> of C10.\<close>

theorem sampler_batch_size_zero_witness:
  "1 \<le> (4::nat) \<and> sampler_iter 4 0 = Some [[0, 1, 2, 3]] \<and> sampler_len 4 0 = Inl ZeroDivisionError"
  using sampler_batch_size_zero [of 4] by (simp add: upt_conv_Cons)

section \<open>Properties of the collate function\<close>

subsection \<open>The collected lists and the padded rows\<close>

lemma collect_loop:
  "foldl (collect_step h) c batch =
     c\<lparr>input_ids_list := input_ids_list c @ map (\<lambda>e. Tensor (input_ids e)) batch,
       actions_list := actions_list c @ map (\<lambda>e. Tensor (actions e)) batch,
       logprobs_list := logprobs_list c @ map (\<lambda>e. Tensor (logprobs e)) batch,
       values_list := values_list c @ map (\<lambda>e. Tensor (values' e)) batch,
       rewards_list := rewards_list c @ map (\<lambda>e. Tensor (rewards e)) batch,
       image_ids_list := image_ids_list c @ (if h then map image_ids_or_none batch else [])\<rparr>"
proof (induction batch arbitrary: c)
  case Nil
  show ?case by simp
next
  case (Cons e batch)
  show ?case
    unfolding foldl_Cons Cons.IH
    by (simp add: collect_step_def Let_def image_ids_or_none_def)
qed

lemma collect_from_empty:
  "foldl (collect_step h) empty_containers batch =
     \<lparr>input_ids_list = map (\<lambda>e. Tensor (input_ids e)) batch,
      actions_list = map (\<lambda>e. Tensor (actions e)) batch,
      logprobs_list = map (\<lambda>e. Tensor (logprobs e)) batch,
      values_list = map (\<lambda>e. Tensor (values' e)) batch,
      rewards_list = map (\<lambda>e. Tensor (rewards e)) batch,
      image_ids_list = (if h then map image_ids_or_none batch else [])\<rparr>"
  unfolding collect_loop by (simp add: empty_containers_def)

lemma pad_sequence_tensors:
  "pad_sequence (map (\<lambda>e. Tensor (field e)) batch) fill =
     (if batch = [] then Inl EmptySequences else Inr (pad_rows field batch fill))"
  by (auto simp: pad_sequence_def pad_rows_def max_length_def Let_def comp_def)

lemma map_image_ids_all:
  "list_all hasattr_image_ids batch \<Longrightarrow>
     map image_ids_or_none batch = map (\<lambda>e. Tensor (image_ids e)) batch"
  by (induction batch) (simp_all add: image_ids_or_none_def)

lemma none_in_image_ids:
  "\<not> list_all hasattr_image_ids batch \<Longrightarrow> PyNone \<in> set (map image_ids_or_none batch)"
  by (induction batch) (auto simp: image_ids_or_none_def)

lemma pad_sequence_image_ids:
  "batch \<noteq> [] \<Longrightarrow>
   pad_sequence (map image_ids_or_none batch) fill =
     (if list_all hasattr_image_ids batch then Inr (pad_rows image_ids batch fill)
      else Inl NotATensor)"
proof (cases "list_all hasattr_image_ids batch")
  case True
  assume "batch \<noteq> []"
  then show ?thesis
    using True by (simp add: map_image_ids_all pad_sequence_tensors)
next
  case False
  assume "batch \<noteq> []"
  then show ?thesis
    using False none_in_image_ids [OF False] by (simp add: pad_sequence_def)
qed

lemma collate_closed_form:
  "ppo_rl_collate_fn batch pad_token_id =
     (if batch = [] then Inl EmptySequences
      else if \<not> list_ex hasattr_image_ids batch then Inr (base_data batch pad_token_id)
      else if list_all hasattr_image_ids batch
        then Inr ((base_data batch pad_token_id)
                    (''image_ids'' \<mapsto> LongBatch (pad_rows image_ids batch 0)))
      else Inl NotATensor)"
  unfolding ppo_rl_collate_fn_def Let_def collect_from_empty build_batched_data_def
  by (simp add: pad_sequence_tensors pad_sequence_image_ids base_data_def)

lemma length_le_max_length:
  "e \<in> set batch \<Longrightarrow> length (field e) \<le> max_length field batch"
  by (simp add: max_length_def)

lemma pad_rows_shape:
  "has_shape (pad_rows field batch fill) (length batch) (max_length field batch)"
proof -
  have "length (field e) + (max_length field batch - length (field e)) = max_length field batch"
    if "e \<in> set batch" for e
    using length_le_max_length [OF that, of field] by simp
  then show ?thesis
    by (simp add: has_shape_def pad_rows_def list_all_iff)
qed

lemma pad_rows_row:
  assumes "i < length batch"
  shows "padded_from (field (batch ! i)) fill (pad_rows field batch fill ! i)"
  using assms by (simp add: padded_from_def pad_rows_def list_all_iff)

lemma length_pad_rows: "length (pad_rows field batch fill) = length batch"
  by (simp add: pad_rows_def)

lemma collate_Inr_cases:
  assumes "ppo_rl_collate_fn batch pad_token_id = Inr out"
  shows "batch \<noteq> [] \<and>
         (\<not> list_ex hasattr_image_ids batch \<and> out = base_data batch pad_token_id
          \<or> list_all hasattr_image_ids batch
            \<and> out = (base_data batch pad_token_id)
                        (''image_ids'' \<mapsto> LongBatch (pad_rows image_ids batch 0)))"
  using assms unfolding collate_closed_form by (auto split: if_splits)

lemma base_data_lookup:
  "base_data batch p ''input_ids'' = Some (LongBatch (pad_rows input_ids batch p))"
  "base_data batch p ''actions'' = Some (LongBatch (pad_rows actions batch p))"
  "base_data batch p ''logprobs'' = Some (FloatBatch (pad_rows logprobs batch 0))"
  "base_data batch p ''values'' = Some (FloatBatch (pad_rows values' batch 0))"
  "base_data batch p ''rewards'' = Some (FloatBatch (pad_rows rewards batch 0))"
  "base_data batch p ''image_ids'' = None"
  by (simp_all add: base_data_def)

lemma dom_base_data:
  "dom (base_data batch p) = {''input_ids'', ''actions'', ''logprobs'', ''values'', ''rewards''}"
  by (auto simp: base_data_def)

lemma collate_Inr_fields:
  assumes "ppo_rl_collate_fn batch p = Inr out"
  shows "out ''input_ids'' = Some (LongBatch (pad_rows input_ids batch p))"
    and "out ''actions'' = Some (LongBatch (pad_rows actions batch p))"
    and "out ''logprobs'' = Some (FloatBatch (pad_rows logprobs batch 0))"
    and "out ''values'' = Some (FloatBatch (pad_rows values' batch 0))"
    and "out ''rewards'' = Some (FloatBatch (pad_rows rewards batch 0))"
    and "''image_ids'' \<in> dom out \<Longrightarrow>
           out ''image_ids'' = Some (LongBatch (pad_rows image_ids batch 0))"
  using collate_Inr_cases [OF assms] by (auto simp: base_data_lookup)

lemma collate_Inr_dom:
  assumes "ppo_rl_collate_fn batch p = Inr out"
  shows "dom out = {''input_ids'', ''actions'', ''logprobs'', ''values'', ''rewards''}
                   \<union> (if list_ex hasattr_image_ids batch then {''image_ids''} else {})"
proof -
  consider (plain) "\<not> list_ex hasattr_image_ids batch" "out = base_data batch p"
    | (vision) "list_all hasattr_image_ids batch" "batch \<noteq> []"
        "out = (base_data batch p)(''image_ids'' \<mapsto> LongBatch (pad_rows image_ids batch 0))"
    using collate_Inr_cases [OF assms] by blast
  then show ?thesis
  proof cases
    case plain
    then show ?thesis by (simp add: dom_base_data)
  next
    case vision
    then have "list_ex hasattr_image_ids batch"
      by (cases batch) simp_all
    then show ?thesis unfolding vision(3) dom_fun_upd dom_base_data by simp
  qed
qed

lemma collate_plain_batch: "ppo_rl_collate_fn plain_batch (- 1) = Inr plain_out"
  unfolding collate_closed_form
  by (simp add: base_data_def pad_rows_def max_length_def plain_batch_def plain_out_def)

lemma collate_vision_batch: "ppo_rl_collate_fn vision_batch (- 1) = Inr vision_out"
  unfolding collate_closed_form
  by (simp add: base_data_def pad_rows_def max_length_def vision_batch_def vision_out_def)

lemma collate_mismatched_batch: "ppo_rl_collate_fn mismatched_batch (- 1) = Inr mismatched_out"
  unfolding collate_closed_form
  by (simp add: base_data_def pad_rows_def max_length_def mismatched_batch_def
      mismatched_out_def)

subsection \<open>Batches that are not mixed\<close>

text \<open>
  The call returns a batch exactly for a non-empty list of records that is not mixed,
  and then the \<open>image_ids\<close> key is there exactly when the records have image ids.
\<close>

lemma collate_returns_iff:
  "(\<exists>out. ppo_rl_collate_fn batch pad_token_id = Inr out) \<longleftrightarrow> batch \<noteq> [] \<and> \<not> mixed batch"
  unfolding collate_closed_form mixed_def by simp

lemma collate_image_ids_key:
  assumes "ppo_rl_collate_fn batch pad_token_id = Inr out"
  shows "''image_ids'' \<in> dom out \<longleftrightarrow> list_ex hasattr_image_ids batch"
  unfolding collate_Inr_dom [OF assms] by simp

text \<open>
  For a non-empty list of records that all have \<open>image_ids\<close> or all lack it, a batch
  is returned, whatever the lengths of the sequences. Each of its fields has shape
  \<open>(len(records), max length of that field over the records)\<close>, the maximum taken for
  each field on its own; the \<open>image_ids\<close> field is there exactly when the records
  have image ids; and there is no other field.
\<close>

lemma collate_shapes_unmixed:
  assumes "batch \<noteq> []" and "\<not> mixed batch"
  shows "\<exists>out. ppo_rl_collate_fn batch pad_token_id = Inr out
       \<and> (\<exists>t. out ''input_ids'' = Some (LongBatch t)
            \<and> has_shape t (length batch) (max_length input_ids batch))
       \<and> (\<exists>t. out ''actions'' = Some (LongBatch t)
            \<and> has_shape t (length batch) (max_length actions batch))
       \<and> (\<exists>t. out ''logprobs'' = Some (FloatBatch t)
            \<and> has_shape t (length batch) (max_length logprobs batch))
       \<and> (\<exists>t. out ''values'' = Some (FloatBatch t)
            \<and> has_shape t (length batch) (max_length values' batch))
       \<and> (\<exists>t. out ''rewards'' = Some (FloatBatch t)
            \<and> has_shape t (length batch) (max_length rewards batch))
       \<and> (''image_ids'' \<in> dom out \<longleftrightarrow> list_ex hasattr_image_ids batch)
       \<and> (''image_ids'' \<in> dom out \<longrightarrow>
            (\<exists>t. out ''image_ids'' = Some (LongBatch t)
               \<and> has_shape t (length batch) (max_length image_ids batch)))
       \<and> dom out \<subseteq> {''input_ids'', ''actions'', ''logprobs'', ''values'', ''rewards'',
                      ''image_ids''}"
proof -
  have "\<exists>out. ppo_rl_collate_fn batch pad_token_id = Inr out"
    unfolding collate_returns_iff using assms by (rule conjI)
  then obtain out where out: "ppo_rl_collate_fn batch pad_token_id = Inr out" ..
  note f = collate_Inr_fields [OF out]
  have s1: "\<exists>t. out ''input_ids'' = Some (LongBatch t)
            \<and> has_shape t (length batch) (max_length input_ids batch)"
    by (intro exI conjI, rule f(1), rule pad_rows_shape)
  have s2: "\<exists>t. out ''actions'' = Some (LongBatch t)
            \<and> has_shape t (length batch) (max_length actions batch)"
    by (intro exI conjI, rule f(2), rule pad_rows_shape)
  have s3: "\<exists>t. out ''logprobs'' = Some (FloatBatch t)
            \<and> has_shape t (length batch) (max_length logprobs batch)"
    by (intro exI conjI, rule f(3), rule pad_rows_shape)
  have s4: "\<exists>t. out ''values'' = Some (FloatBatch t)
            \<and> has_shape t (length batch) (max_length values' batch)"
    by (intro exI conjI, rule f(4), rule pad_rows_shape)
  have s5: "\<exists>t. out ''rewards'' = Some (FloatBatch t)
            \<and> has_shape t (length batch) (max_length rewards batch)"
    by (intro exI conjI, rule f(5), rule pad_rows_shape)
  have k: "''image_ids'' \<in> dom out \<longleftrightarrow> list_ex hasattr_image_ids batch"
    by (rule collate_image_ids_key [OF out])
  have s6: "''image_ids'' \<in> dom out \<longrightarrow>
            (\<exists>t. out ''image_ids'' = Some (LongBatch t)
               \<and> has_shape t (length batch) (max_length image_ids batch))"
  proof
    assume key: "''image_ids'' \<in> dom out"
    show "\<exists>t. out ''image_ids'' = Some (LongBatch t)
               \<and> has_shape t (length batch) (max_length image_ids batch)"
      by (intro exI conjI, rule f(6) [OF key], rule pad_rows_shape)
  qed
  have d: "dom out \<subseteq> {''input_ids'', ''actions'', ''logprobs'', ''values'', ''rewards'',
                      ''image_ids''}"
    unfolding collate_Inr_dom [OF out] by auto
  show ?thesis
    by (rule exI [of _ out]) (intro conjI out s1 s2 s3 s4 s5 k s6 d)
qed

text \<open>
  For such a list, row \<open>i\<close> of each field of the returned batch starts with the
  sequence of record \<open>i\<close> for that field, unchanged, and every later position of the
  row holds the fill value of the field: \<open>pad_token_id\<close> for \<open>input_ids\<close> and
  \<open>actions\<close>, \<open>0.0\<close> for \<open>logprobs\<close>, \<open>values\<close> and \<open>rewards\<close>, and \<open>0\<close> for
  \<open>image_ids\<close>.
\<close>

lemma collate_rows_padded_unmixed:
  assumes "batch \<noteq> []" and "\<not> mixed batch" and "i < length batch"
  shows "\<exists>out. ppo_rl_collate_fn batch pad_token_id = Inr out
       \<and> (\<exists>t. out ''input_ids'' = Some (LongBatch t) \<and> length t = length batch
            \<and> padded_from (input_ids (batch ! i)) pad_token_id (t ! i))
       \<and> (\<exists>t. out ''actions'' = Some (LongBatch t) \<and> length t = length batch
            \<and> padded_from (actions (batch ! i)) pad_token_id (t ! i))
       \<and> (\<exists>t. out ''logprobs'' = Some (FloatBatch t) \<and> length t = length batch
            \<and> padded_from (logprobs (batch ! i)) 0 (t ! i))
       \<and> (\<exists>t. out ''values'' = Some (FloatBatch t) \<and> length t = length batch
            \<and> padded_from (values' (batch ! i)) 0 (t ! i))
       \<and> (\<exists>t. out ''rewards'' = Some (FloatBatch t) \<and> length t = length batch
            \<and> padded_from (rewards (batch ! i)) 0 (t ! i))
       \<and> (''image_ids'' \<in> dom out \<longrightarrow>
            (\<exists>t. out ''image_ids'' = Some (LongBatch t) \<and> length t = length batch
               \<and> padded_from (image_ids (batch ! i)) 0 (t ! i)))"
proof -
  have "\<exists>out. ppo_rl_collate_fn batch pad_token_id = Inr out"
    unfolding collate_returns_iff using assms(1,2) by (rule conjI)
  then obtain out where out: "ppo_rl_collate_fn batch pad_token_id = Inr out" ..
  note f = collate_Inr_fields [OF out]
  note r = pad_rows_row [OF assms(3)]
  have s1: "\<exists>t. out ''input_ids'' = Some (LongBatch t) \<and> length t = length batch
            \<and> padded_from (input_ids (batch ! i)) pad_token_id (t ! i)"
    by (intro exI conjI, rule f(1), rule length_pad_rows, rule r)
  have s2: "\<exists>t. out ''actions'' = Some (LongBatch t) \<and> length t = length batch
            \<and> padded_from (actions (batch ! i)) pad_token_id (t ! i)"
    by (intro exI conjI, rule f(2), rule length_pad_rows, rule r)
  have s3: "\<exists>t. out ''logprobs'' = Some (FloatBatch t) \<and> length t = length batch
            \<and> padded_from (logprobs (batch ! i)) 0 (t ! i)"
    by (intro exI conjI, rule f(3), rule length_pad_rows, rule r)
  have s4: "\<exists>t. out ''values'' = Some (FloatBatch t) \<and> length t = length batch
            \<and> padded_from (values' (batch ! i)) 0 (t ! i)"
    by (intro exI conjI, rule f(4), rule length_pad_rows, rule r)
  have s5: "\<exists>t. out ''rewards'' = Some (FloatBatch t) \<and> length t = length batch
            \<and> padded_from (rewards (batch ! i)) 0 (t ! i)"
    by (intro exI conjI, rule f(5), rule length_pad_rows, rule r)
  have s6: "''image_ids'' \<in> dom out \<longrightarrow>
            (\<exists>t. out ''image_ids'' = Some (LongBatch t) \<and> length t = length batch
               \<and> padded_from (image_ids (batch ! i)) 0 (t ! i))"
  proof
    assume key: "''image_ids'' \<in> dom out"
    show "\<exists>t. out ''image_ids'' = Some (LongBatch t) \<and> length t = length batch
               \<and> padded_from (image_ids (batch ! i)) 0 (t ! i)"
      by (intro exI conjI, rule f(6) [OF key], rule length_pad_rows, rule r)
  qed
  show ?thesis
    by (rule exI [of _ out]) (intro conjI out s1 s2 s3 s4 s5 s6)
qed

subsection \<open>Mixed batches\<close>

text \<open>
  Claim C4 says that for every non-empty list of records each field of the collate
  output has shape \<open>(len(records), max length of that field)\<close>. The list
  \<open>vision_first_mixed_batch\<close> is non-empty, and for it the call produces no field of
  any shape: the placeholder \<open>None\<close> appended for its second record makes
  \<open>pad_sequence\<close> fail, and the call ends in an error.
\<close>

theorem collate_shapes_mixed_fails:
  "vision_first_mixed_batch \<noteq> []
   \<and> ppo_rl_collate_fn vision_first_mixed_batch (- 1) = Inl NotATensor"
proof
  show "vision_first_mixed_batch \<noteq> []" by (simp add: vision_first_mixed_batch_def)
  show "ppo_rl_collate_fn vision_first_mixed_batch (- 1) = Inl NotATensor"
    unfolding ppo_rl_collate_fn_def Let_def
    apply (simp add: vision_first_mixed_batch_def)
    apply (simp add: collect_step_def empty_containers_def Let_def)
    apply (simp add: build_batched_data_def pad_sequence_def Let_def)
    done
qed

text \<open>
  Claim C5 says that for every non-empty list of records row \<open>i\<close> of each collated
  field is record \<open>i\<close>'s sequence followed by the fill value of the field. The list
  \<open>three_record_mixed_batch\<close> is non-empty, and for it the call produces no row at
  all: the placeholder \<open>None\<close> appended for its second record makes \<open>pad_sequence\<close>
  fail, and the call ends in an error.
\<close>

theorem collate_rows_mixed_fails:
  "three_record_mixed_batch \<noteq> []
   \<and> ppo_rl_collate_fn three_record_mixed_batch (- 1) = Inl NotATensor"
proof
  show "three_record_mixed_batch \<noteq> []" by (simp add: three_record_mixed_batch_def)
  show "ppo_rl_collate_fn three_record_mixed_batch (- 1) = Inl NotATensor"
    unfolding ppo_rl_collate_fn_def Let_def
    apply (simp add: three_record_mixed_batch_def)
    apply (simp add: collect_step_def empty_containers_def Let_def)
    apply (simp add: build_batched_data_def pad_sequence_def Let_def)
    done
qed

text \<open>
  Claim C6 says that a batch in which at least one record has \<open>image_ids\<close> is
  collated into a batch with an \<open>image_ids\<close> field, records without the field
  contributing a placeholder. On \<open>mixed_batch\<close> some record has \<open>image_ids\<close>, the
  placeholder appended for the other record is \<open>None\<close>, and \<open>pad_sequence\<close> rejects
  it: the call ends in an error and returns no batch.
\<close>

theorem collate_mixed_batch_raises:
  "list_ex hasattr_image_ids mixed_batch
   \<and> ppo_rl_collate_fn mixed_batch 0 = Inl NotATensor"
  unfolding ppo_rl_collate_fn_def Let_def
  apply (simp add: mixed_batch_def)
  apply (simp add: collect_step_def empty_containers_def Let_def)
  apply (simp add: build_batched_data_def pad_sequence_def Let_def)
  done

text \<open>
  Claim C7 says that every non-empty list of records in which some record's
  \<open>actions\<close>, \<open>logprobs\<close>, \<open>values\<close> and \<open>rewards\<close> differ in length is collated
  without error, each field padded to its own maximum. The list
  \<open>mixed_mismatched_batch\<close> is non-empty and its first record has two actions and one
  log-probability, and the call on it ends in an error: not for the lengths, but for
  the placeholder \<open>None\<close> appended for that record.
\<close>

theorem collate_mixed_mismatched_raises:
  "mixed_mismatched_batch \<noteq> []
   \<and> list_ex (\<lambda>e. \<not> same_action_lengths e) mixed_mismatched_batch
   \<and> ppo_rl_collate_fn mixed_mismatched_batch 0 = Inl NotATensor"
proof (intro conjI)
  show "mixed_mismatched_batch \<noteq> []" by (simp add: mixed_mismatched_batch_def)
  show "list_ex (\<lambda>e. \<not> same_action_lengths e) mixed_mismatched_batch"
    by (simp add: mixed_mismatched_batch_def same_action_lengths_def)
  show "ppo_rl_collate_fn mixed_mismatched_batch 0 = Inl NotATensor"
    unfolding ppo_rl_collate_fn_def Let_def
    apply (simp add: mixed_mismatched_batch_def)
    apply (simp add: collect_step_def empty_containers_def Let_def)
    apply (simp add: build_batched_data_def pad_sequence_def Let_def)
    done
qed

subsection \<open>The empty batch\<close>

text \<open>
  Claim C9. On the empty list of records the call returns no batch: the first
  \<open>pad_sequence\<close> is applied to an empty list of sequences and fails.
\<close>

theorem collate_empty_batch_fails:
  "ppo_rl_collate_fn [] pad_token_id = Inl EmptySequences"
  by (simp add: ppo_rl_collate_fn_def build_batched_data_def empty_containers_def
      pad_sequence_def)

end
